theory Spec2Isabelle
  imports Complex_Main
begin

section \<open>The test-data loader of docker/pdns/load-test-data.py\<close>

text \<open>
  The script waits for the PowerDNS API, reads a JSON fixture, creates every zone of it
  over HTTP and prints a summary. Everything outside the script (the file system, the
  API server, the terminal's interrupt key, the JSON parser) is a parameter of the model;
  the requests and sleeps of the script, its loading of the fixture and two of the lines it
  prints (the success report and the zone listing) are recorded, in order, in a trace of
  events. The other lines it prints are progress messages and are left out.
\<close>

subsection \<open>JSON values, as Python's json module yields them\<close>

text \<open>
  A dict is the list of its items in insertion order; \<open>map_of\<close> looks a key up.
\<close>

datatype json =
    JNull
  | JBool bool
  | JInt int
  | JFloat real
  | JStr string
  | JArr "json list"
  | JObj "(string \<times> json) list"

text \<open>Python's truth value of an object, as \<open>if data\<close> and \<open>and\<close> test it.\<close>

fun truthy :: "json \<Rightarrow> bool" where
  "truthy JNull = False"
| "truthy (JBool b) = b"
| "truthy (JInt i) = (i \<noteq> 0)"
| "truthy (JFloat r) = (r \<noteq> 0)"
| "truthy (JStr s) = (s \<noteq> [])"
| "truthy (JArr xs) = (xs \<noteq> [])"
| "truthy (JObj kvs) = (kvs \<noteq> [])"

subsection \<open>Exceptions\<close>

text \<open>
  Every constructor but \<open>KeyboardInterrupt\<close> is a subclass of Python's
  \<open>Exception\<close>; the argument is the text \<open>str(e)\<close> gives, for a \<open>KeyError\<close> the key.
\<close>

datatype exn =
    KeyError string
  | TypeError string
  | AttributeError string
  | UnicodeDecodeError string
  | JSONDecodeError string
  | URLError string
  | OSError string
  | KeyboardInterrupt

fun is_Exception :: "exn \<Rightarrow> bool" where
  "is_Exception KeyboardInterrupt = False"
| "is_Exception _ = True"

fun str_exn :: "exn \<Rightarrow> string" where
  "str_exn (KeyError k) = [CHR 0x27] @ k @ [CHR 0x27]"
| "str_exn (TypeError m) = m"
| "str_exn (AttributeError m) = m"
| "str_exn (UnicodeDecodeError m) = m"
| "str_exn (JSONDecodeError m) = m"
| "str_exn (URLError m) = m"
| "str_exn (OSError m) = m"
| "str_exn KeyboardInterrupt = []"

text \<open>
  How a call ends when it does not return: \<open>sys.exit(n)\<close> raises \<open>SystemExit\<close>, which
  nothing in the script catches but the top level, which raises it again.
\<close>

datatype abort = SystemExit nat | Raised exn

subsection \<open>The outside world and the trace\<close>

datatype http_method = GET | POST | PATCH

text \<open>
  The two URLs the script builds: \<open>{API_URL}/zones\<close> and \<open>{API_URL}/zones/{zone_name}\<close>;
  the second keeps the value that the f-string formats.
\<close>

datatype url = ZonesUrl | ZoneUrl json

text \<open>
  What \<open>urlopen\<close> does with a request. \<open>Response status body\<close>: it returns a response;
  \<open>HTTPError code body\<close>: it raises \<open>urllib.error.HTTPError\<close>; \<open>Failed e\<close>: it raises
  anything else (connection refused, an interrupt). The body is the result of
  \<open>.read().decode('utf-8')\<close>: the text, or the exception that reading or decoding raises
  (bytes that are not UTF-8, a connection that breaks).
\<close>

datatype http_outcome =
    Response nat "exn + string"
  | HTTPError nat "exn + string"
  | Failed exn

text \<open>The pair \<open>make_request\<close> returns: status (or \<open>None\<close>) and body (or \<open>None\<close>).\<close>

type_synonym reply = "nat option \<times> string option"

datatype event =
    Call http_method url "json option" "abort + reply"
  | Slept
  | Interrupted
  | LoadFixture
  | Report nat nat
  | Listed json json

text \<open>
  \<open>Call m u d r\<close>: one \<open>make_request\<close>, with the request's data and what the call gave
  back; \<open>Slept\<close>: one \<open>time.sleep(1)\<close> that ran to its end, \<open>Interrupted\<close>: one that the
  interrupt key cut short; \<open>LoadFixture\<close>: opening and parsing the fixture file;
  \<open>Report s n\<close>: the line "Successfully processed s/n zones"; \<open>Listed name kind\<close>: one
  line of the final zone listing.
\<close>

record env =
  file_exists :: bool
  load_file :: "exn + json"
  respond :: "event list \<Rightarrow> http_method \<Rightarrow> url \<Rightarrow> json option \<Rightarrow> http_outcome"
  sleep_interrupted :: "event list \<Rightarrow> bool"
  json_loads :: "string \<Rightarrow> json option"

text \<open>
  \<open>file_exists\<close>: \<open>TEST_DATA_FILE.exists()\<close>; \<open>load_file\<close>: what \<open>open\<close> and \<open>json.load\<close>
  give; \<open>respond\<close>: the server's answer to a request, which may depend on everything that
  happened before; \<open>sleep_interrupted\<close>: whether the interrupt key is pressed during the
  next sleep; \<open>json_loads\<close>: \<open>json.loads\<close> on a string, \<open>None\<close> where it raises
  \<open>JSONDecodeError\<close>.
\<close>

subsection \<open>make_request\<close>

text \<open>\<open>json.dumps(data).encode('utf-8') if data else None\<close>\<close>

definition request_body :: "json option \<Rightarrow> json option" where
  "request_body data =
     (case data of None \<Rightarrow> None | Some d \<Rightarrow> if truthy d then Some d else None)"

text \<open>
  The \<open>try\<close> statement of \<open>make_request\<close>. An exception raised while the \<open>with\<close> block
  reads the body is handled by \<open>except Exception\<close>; one raised by \<open>e.read().decode\<close>
  inside the \<open>except HTTPError\<close> handler is handled by nothing.
\<close>

fun urlopen_result :: "http_outcome \<Rightarrow> abort + reply" where
  "urlopen_result (Response status (Inr body)) =
     Inr (Some status, if body = [] then None else Some body)"
| "urlopen_result (Response status (Inl e)) =
     (if is_Exception e then Inr (None, Some (str_exn e)) else Inl (Raised e))"
| "urlopen_result (HTTPError code (Inr body)) = Inr (Some code, Some body)"
| "urlopen_result (HTTPError code (Inl e)) = Inl (Raised e)"
| "urlopen_result (Failed e) =
     (if is_Exception e then Inr (None, Some (str_exn e)) else Inl (Raised e))"

definition make_request ::
  "env \<Rightarrow> event list \<Rightarrow> url \<Rightarrow> http_method \<Rightarrow> json option \<Rightarrow> (abort + reply) \<times> event list" where
  "make_request E tr u m data =
     (let body = request_body data;
          r = urlopen_result (respond E tr m u body)
      in (r, tr @ [Call m u body r]))"

subsection \<open>wait_for_api\<close>

fun wait_loop :: "env \<Rightarrow> event list \<Rightarrow> nat \<Rightarrow> (abort + bool) \<times> event list" where
  "wait_loop E tr 0 = (Inr False, tr)"
| "wait_loop E tr (Suc n) =
     (case make_request E tr ZonesUrl GET None of
        (Inl a, tr1) \<Rightarrow> (Inl a, tr1)
      | (Inr (status, _), tr1) \<Rightarrow>
          if status = Some 200 then (Inr True, tr1)
          else if sleep_interrupted E tr1 then (Inl (Raised KeyboardInterrupt), tr1 @ [Interrupted])
          else wait_loop E (tr1 @ [Slept]) n)"

text \<open>\<open>range(max_attempts)\<close> is empty for a negative bound.\<close>

definition wait_for_api :: "env \<Rightarrow> event list \<Rightarrow> int \<Rightarrow> (abort + bool) \<times> event list" where
  "wait_for_api E tr max_attempts = wait_loop E tr (nat max_attempts)"

subsection \<open>create_zone\<close>

text \<open>\<open>obj[key]\<close> with a string key: only a dict has one.\<close>

fun subscript :: "json \<Rightarrow> string \<Rightarrow> exn + json" where
  "subscript (JObj kvs) k = (case map_of kvs k of None \<Rightarrow> Inl (KeyError k) | Some v \<Rightarrow> Inr v)"
| "subscript (JArr xs) k = Inl (TypeError ''list indices must be integers or slices, not str'')"
| "subscript (JStr s) k = Inl (TypeError ''string indices must be integers'')"
| "subscript _ k = Inl (TypeError ''object is not subscriptable'')"

text \<open>\<open>d.get(key, default)\<close>\<close>

definition dict_get :: "(string \<times> json) list \<Rightarrow> string \<Rightarrow> json \<Rightarrow> json" where
  "dict_get kvs k d = (case map_of kvs k of None \<Rightarrow> d | Some v \<Rightarrow> v)"

text \<open>\<open>len(x)\<close>: numbers, booleans and \<open>None\<close> have no length.\<close>

fun py_len :: "json \<Rightarrow> nat option" where
  "py_len (JArr xs) = Some (length xs)"
| "py_len (JObj kvs) = Some (length kvs)"
| "py_len (JStr s) = Some (length s)"
| "py_len _ = None"

text \<open>The payload of the creation request, for a descriptor with the given items.\<close>

definition zone_creation :: "(string \<times> json) list \<Rightarrow> json \<Rightarrow> json \<Rightarrow> json" where
  "zone_creation items zone_name zone_kind =
     (if zone_kind = JStr ''Slave''
      then JObj [(''name'', zone_name), (''kind'', zone_kind),
                 (''masters'', dict_get items ''masters'' (JArr [])),
                 (''nameservers'', dict_get items ''nameservers'' (JArr []))]
      else JObj (filter (\<lambda>(k, v). k \<noteq> ''rrsets'') items))"

definition create_zone :: "env \<Rightarrow> event list \<Rightarrow> json \<Rightarrow> (abort + bool) \<times> event list" where
  "create_zone E tr zone_data =
     (case subscript zone_data ''name'' of Inl e \<Rightarrow> (Inl (Raised e), tr) | Inr zone_name \<Rightarrow>
     (case subscript zone_data ''kind'' of Inl e \<Rightarrow> (Inl (Raised e), tr) | Inr zone_kind \<Rightarrow>
     (case zone_data of
        JObj items \<Rightarrow>
          (case make_request E tr ZonesUrl POST
                  (Some (zone_creation items zone_name zone_kind)) of
             (Inl a, tr1) \<Rightarrow> (Inl a, tr1)
           | (Inr (status, body), tr1) \<Rightarrow>
                  if status = Some 201 then
                    (if zone_kind \<noteq> JStr ''Slave'' \<and>
                        (case map_of items ''rrsets'' of None \<Rightarrow> False | Some r \<Rightarrow> truthy r)
                     then
                       let rrsets = dict_get items ''rrsets'' JNull in
                       (case py_len rrsets of
                          None \<Rightarrow> (Inl (Raised (TypeError ''object has no len()'')), tr1)
                        | Some _ \<Rightarrow>
                           (case make_request E tr1 (ZoneUrl zone_name) PATCH
                                   (Some (JObj [(''rrsets'', rrsets)])) of
                              (Inl a, tr2) \<Rightarrow> (Inl a, tr2)
                            | (Inr (patch_status, _), tr2) \<Rightarrow>
                                if patch_status = Some 200 \<or> patch_status = Some 204
                                then (Inr True, tr2)
                                else (Inr False, tr2)))
                     else (Inr True, tr1))
                  else if status = Some 409 then (Inr True, tr1)
                  else (Inr False, tr1))
      | _ \<Rightarrow> (Inl (Raised (TypeError ''object is not subscriptable'')), tr))))"

subsection \<open>main\<close>

text \<open>
  What a \<open>for\<close> loop runs over: the elements of a list, the keys of a dict, the
  characters of a string (one \<open>char\<close> each here); nothing else is iterable.
\<close>

fun py_iter :: "json \<Rightarrow> json list option" where
  "py_iter (JArr xs) = Some xs"
| "py_iter (JObj kvs) = Some (map (\<lambda>(k, v). JStr k) kvs)"
| "py_iter (JStr s) = Some (map (\<lambda>c. JStr [c]) s)"
| "py_iter _ = None"

text \<open>The loop \<open>for zone_data in zones\<close> with its counter \<open>success_count\<close>.\<close>

fun create_zones :: "env \<Rightarrow> event list \<Rightarrow> json list \<Rightarrow> nat \<Rightarrow> (abort + nat) \<times> event list" where
  "create_zones E tr [] success_count = (Inr success_count, tr)"
| "create_zones E tr (zone_data # zones) success_count =
     (case create_zone E tr zone_data of
        (Inl a, tr1) \<Rightarrow> (Inl a, tr1)
      | (Inr ok, tr1) \<Rightarrow>
          create_zones E tr1 zones (if ok then success_count + 1 else success_count))"

text \<open>The loop \<open>for zone in zones_list\<close> of the summary.\<close>

fun list_zones :: "event list \<Rightarrow> json list \<Rightarrow> (abort + unit) \<times> event list" where
  "list_zones tr [] = (Inr (), tr)"
| "list_zones tr (zone # zones_list) =
     (case subscript zone ''name'' of Inl e \<Rightarrow> (Inl (Raised e), tr) | Inr name \<Rightarrow>
     (case subscript zone ''kind'' of Inl e \<Rightarrow> (Inl (Raised e), tr) | Inr kind \<Rightarrow>
        list_zones (tr @ [Listed name kind]) zones_list))"

definition zone_summary :: "env \<Rightarrow> event list \<Rightarrow> (abort + unit) \<times> event list" where
  "zone_summary E tr =
     (case make_request E tr ZonesUrl GET None of
        (Inl a, tr1) \<Rightarrow> (Inl a, tr1)
      | (Inr (status, body), tr1) \<Rightarrow>
          if status = Some 200 then
            (case body of
               None \<Rightarrow> (Inl (Raised (TypeError ''the JSON object must be str, bytes or bytearray, not NoneType'')), tr1)
             | Some b \<Rightarrow>
                (case json_loads E b of
                   None \<Rightarrow> (Inl (Raised (JSONDecodeError ''Expecting value'')), tr1)
                 | Some zones_list \<Rightarrow>
                    (case py_iter zones_list of
                       None \<Rightarrow> (Inl (Raised (TypeError ''object is not iterable'')), tr1)
                     | Some zs \<Rightarrow> list_zones tr1 zs)))
          else (Inr (), tr1))"

definition main :: "env \<Rightarrow> (abort + unit) \<times> event list" where
  "main E =
     (if \<not> file_exists E then (Inl (SystemExit 1), [])
      else
        case wait_for_api E [] 30 of
          (Inl a, tr1) \<Rightarrow> (Inl a, tr1)
        | (Inr ready, tr1) \<Rightarrow>
            if \<not> ready then (Inl (SystemExit 1), tr1)
            else
              (case load_file E of
                 Inl e \<Rightarrow> (Inl (Raised e), tr1 @ [LoadFixture])
               | Inr test_data \<Rightarrow>
                  (case test_data of
                     JObj items \<Rightarrow>
                       let zones = dict_get items ''zones'' (JArr []) in
                       (case (py_len zones, py_iter zones) of
                          (Some n, Some zs) \<Rightarrow>
                            (case create_zones E (tr1 @ [LoadFixture]) zs 0 of
                               (Inl a, tr2) \<Rightarrow> (Inl a, tr2)
                             | (Inr success_count, tr2) \<Rightarrow>
                                 zone_summary E (tr2 @ [Report success_count n]))
                        | _ \<Rightarrow> (Inl (Raised (TypeError ''object has no len()'')), tr1 @ [LoadFixture]))
                   | _ \<Rightarrow> (Inl (Raised (AttributeError ''object has no attribute get'')),
                           tr1 @ [LoadFixture]))))"

text \<open>
  The \<open>__main__\<close> block: the exit code of the process. \<open>main\<close> returning leaves the
  interpreter with 0; \<open>KeyboardInterrupt\<close> and every \<open>Exception\<close> end in \<open>sys.exit(1)\<close>;
  \<open>SystemExit\<close> is raised again and keeps its code.
\<close>

fun exit_code :: "abort + unit \<Rightarrow> nat" where
  "exit_code (Inr u) = 0"
| "exit_code (Inl (SystemExit n)) = n"
| "exit_code (Inl (Raised KeyboardInterrupt)) = 1"
| "exit_code (Inl (Raised e)) = 1"

definition run :: "env \<Rightarrow> nat \<times> event list" where
  "run E = (exit_code (fst (main E)), snd (main E))"

subsection \<open>The shape of a readiness wait\<close>

text \<open>
  The events of polls that were answered with a status other than 200 and slept after:
  one GET of the zones collection and one sleep for each.
\<close>

definition polls :: "reply list \<Rightarrow> event list" where
  "polls rs = concat (map (\<lambda>r. [Call GET ZonesUrl None (Inr r), Slept]) rs)"

subsection \<open>Reading a trace\<close>

text \<open>The requests of one HTTP verb among the events.\<close>

fun is_call :: "http_method \<Rightarrow> event \<Rightarrow> bool" where
  "is_call m (Call m' u d r) = (m' = m)"
| "is_call m _ = False"

text \<open>
  A zone descriptor as the fixture's data model has it: a dict with a name and a kind
  whose rrsets, when it has any, are a list.
\<close>

fun zone_descriptor :: "json \<Rightarrow> bool" where
  "zone_descriptor (JObj items) =
     (map_of items ''name'' \<noteq> None \<and> map_of items ''kind'' \<noteq> None \<and>
      (case map_of items ''rrsets'' of None \<Rightarrow> True | Some (JArr xs) \<Rightarrow> True | Some _ \<Rightarrow> False))"
| "zone_descriptor _ = False"

subsection \<open>Example fixtures and servers\<close>

text \<open>
  Zone descriptors as the fixture file holds them, and servers given by the answer they
  make to a request after the events so far.
\<close>

definition rrset_www :: json where
  "rrset_www = JObj [(''name'', JStr ''www.a.test.''), (''type'', JStr ''A''), (''ttl'', JInt 300),
     (''changetype'', JStr ''REPLACE''),
     (''records'', JArr [JObj [(''content'', JStr ''192.0.2.10''), (''disabled'', JBool False)]])]"

definition zone_native :: "(string \<times> json) list" where
  "zone_native = [(''name'', JStr ''a.test.''), (''kind'', JStr ''Native''),
     (''nameservers'', JArr [JStr ''ns1.a.test.'']), (''rrsets'', JArr [rrset_www])]"

definition zone_slave :: "(string \<times> json) list" where
  "zone_slave = [(''name'', JStr ''s.test.''), (''kind'', JStr ''Slave''),
     (''masters'', JArr [JStr ''192.0.2.1'']), (''rrsets'', JArr [rrset_www])]"

definition zone_master :: "(string \<times> json) list" where
  "zone_master = [(''name'', JStr ''m.test.''), (''kind'', JStr ''Master''), (''rrsets'', JArr [])]"

definition zone_nameless :: "(string \<times> json) list" where
  "zone_nameless = [(''kind'', JStr ''Native''), (''rrsets'', JArr [rrset_www])]"

definition api :: "json \<Rightarrow> (event list \<Rightarrow> http_method \<Rightarrow> http_outcome) \<Rightarrow> env" where
  "api fixture answer =
     \<lparr>file_exists = True, load_file = Inr fixture,
      respond = (\<lambda>tr m u d. answer tr m),
      sleep_interrupted = (\<lambda>tr. False),
      json_loads = (\<lambda>s. if s = ''[]'' then Some (JArr []) else None)\<rparr>"

definition answer_ok :: "event list \<Rightarrow> http_method \<Rightarrow> http_outcome" where
  "answer_ok tr m =
     (case m of GET \<Rightarrow> Response 200 (Inr ''[]'') | POST \<Rightarrow> Response 201 (Inr ''{}'')
      | PATCH \<Rightarrow> Response 204 (Inr []))"

definition answer_conflict :: "event list \<Rightarrow> http_method \<Rightarrow> http_outcome" where
  "answer_conflict tr m =
     (case m of GET \<Rightarrow> Response 200 (Inr ''[]'') | POST \<Rightarrow> HTTPError 409 (Inr ''Conflict'')
      | PATCH \<Rightarrow> Response 204 (Inr []))"

definition answer_patch_rejected :: "event list \<Rightarrow> http_method \<Rightarrow> http_outcome" where
  "answer_patch_rejected tr m =
     (case m of GET \<Rightarrow> Response 200 (Inr ''[]'') | POST \<Rightarrow> Response 201 (Inr ''{}'')
      | PATCH \<Rightarrow> HTTPError 422 (Inr ''Unprocessable''))"

text \<open>A server that is starting: the first two requests get 503, every later one 200.\<close>

definition answer_starting :: "event list \<Rightarrow> http_method \<Rightarrow> http_outcome" where
  "answer_starting tr m =
     (if length tr < 4 then HTTPError 503 (Inr ''Service Unavailable'')
      else Response 200 (Inr ''[]''))"

text \<open>A server that is down: every connection is refused.\<close>

definition answer_down :: "event list \<Rightarrow> http_method \<Rightarrow> http_outcome" where
  "answer_down tr m = Failed (URLError ''Connection refused'')"

definition fixture_three :: json where
  "fixture_three = JObj [(''zones'', JArr [JObj zone_native, JObj zone_slave, JObj zone_master])]"

text \<open>A server that is up and refuses every creation.\<close>

definition answer_create_fails :: "event list \<Rightarrow> http_method \<Rightarrow> http_outcome" where
  "answer_create_fails tr m =
     (case m of GET \<Rightarrow> Response 200 (Inr ''[]'')
      | POST \<Rightarrow> HTTPError 500 (Inr ''Internal Server Error'')
      | PATCH \<Rightarrow> HTTPError 500 (Inr ''Internal Server Error''))"

definition fixture_malformed :: json where
  "fixture_malformed =
     JObj [(''zones'', JArr [JObj zone_master, JObj zone_nameless, JObj zone_native])]"

text \<open>
  A server (or a proxy before it) whose error pages are not UTF-8: creation fails with
  HTTP 500 and a body that \<open>decode('utf-8')\<close> rejects.
\<close>

definition answer_garbled :: "event list \<Rightarrow> http_method \<Rightarrow> http_outcome" where
  "answer_garbled tr m =
     (case m of GET \<Rightarrow> Response 200 (Inr ''[]'')
      | POST \<Rightarrow> HTTPError 500 (Inl (UnicodeDecodeError ''invalid start byte''))
      | PATCH \<Rightarrow> HTTPError 500 (Inl (UnicodeDecodeError ''invalid start byte'')))"

section \<open>Properties\<close>

subsection \<open>make_request and create_zone\<close>

lemma make_request_eq:
  "make_request E tr u m d = (r, tr') \<Longrightarrow> tr' = tr @ [Call m u (request_body d) r]"
  by (auto simp: make_request_def Let_def)

lemma urlopen_result_Raised: "urlopen_result out = Inl a \<Longrightarrow> \<exists>e. a = Raised e"
  by (cases out rule: urlopen_result.cases) (auto split: if_splits)

lemma make_request_Raised: "make_request E tr u m d = (Inl a, tr') \<Longrightarrow> \<exists>e. a = Raised e"
  by (auto simp: make_request_def Let_def dest: urlopen_result_Raised)

lemma subscript_Inr: "subscript z k = Inr v \<Longrightarrow> \<exists>items. z = JObj items \<and> map_of items k = Some v"
  by (cases z) (auto split: option.splits)

text \<open>Every way create_zone can run, with the events it adds.\<close>

lemma create_zone_cases:
  assumes "create_zone E tr z = (r, tr')"
  shows "(tr' = tr \<and> (\<exists>e. r = Inl (Raised e))) \<or>
    (\<exists>d p. tr' = tr @ [Call POST ZonesUrl d p] \<and>
       (case p of Inl a \<Rightarrow> r = Inl a
        | Inr (status, body) \<Rightarrow>
            if status = Some 201 then r = Inr True \<or> (\<exists>e. r = Inl (Raised e))
            else r = Inr (status = Some 409))) \<or>
    (\<exists>d b u d' p'. tr' = tr @ [Call POST ZonesUrl d (Inr (Some 201, b)), Call PATCH u d' p'] \<and>
       (case p' of Inl a \<Rightarrow> r = Inl a
        | Inr (patch_status, body) \<Rightarrow> r = Inr (patch_status = Some 200 \<or> patch_status = Some 204)))"
proof (cases "subscript z ''name''")
  case (Inl e)
  then show ?thesis using assms by (auto simp: create_zone_def)
next
  case name: (Inr zone_name)
  show ?thesis
  proof (cases "subscript z ''kind''")
    case (Inl e)
    then show ?thesis using assms name by (auto simp: create_zone_def)
  next
    case kind: (Inr zone_kind)
    from subscript_Inr [OF name] obtain items where z: "z = JObj items" by blast
    obtain p tr1 where post:
      "make_request E tr ZonesUrl POST (Some (zone_creation items zone_name zone_kind)) = (p, tr1)"
      by (cases "make_request E tr ZonesUrl POST (Some (zone_creation items zone_name zone_kind))")
    note tr1 = make_request_eq [OF post]
    show ?thesis
    proof (cases p)
      case (Inl a)
      then show ?thesis using assms name kind post tr1 unfolding z
        by (auto simp: create_zone_def)
    next
      case (Inr sb)
      obtain status body where sb: "sb = (status, body)" by (cases sb)
      show ?thesis
      proof (cases "status = Some 201 \<and> zone_kind \<noteq> JStr ''Slave'' \<and>
          (case map_of items ''rrsets'' of None \<Rightarrow> False | Some r \<Rightarrow> truthy r) \<and>
          py_len (dict_get items ''rrsets'' JNull) \<noteq> None")
        case False
        then show ?thesis using assms name kind post tr1 Inr sb unfolding z
          by (auto simp: create_zone_def split: if_splits)
      next
        case True
        obtain p' tr2 where patch:
          "make_request E tr1 (ZoneUrl zone_name) PATCH
              (Some (JObj [(''rrsets'', dict_get items ''rrsets'' JNull)])) = (p', tr2)"
          by (cases "make_request E tr1 (ZoneUrl zone_name) PATCH
              (Some (JObj [(''rrsets'', dict_get items ''rrsets'' JNull)]))")
        note tr2 = make_request_eq [OF patch]
        have "tr' = tr2 \<and> (case p' of Inl a \<Rightarrow> r = Inl a
          | Inr (patch_status, body) \<Rightarrow> r = Inr (patch_status = Some 200 \<or> patch_status = Some 204))"
          using assms name kind post Inr sb True patch unfolding z
          by (auto simp: create_zone_def split: sum.splits if_splits)
        then show ?thesis using tr1 tr2 Inr sb True by auto
      qed
    qed
  qed
qed

lemma create_zone_JObj:
  "map_of items ''name'' = Some zone_name \<Longrightarrow> map_of items ''kind'' = Some zone_kind \<Longrightarrow>
   create_zone E tr (JObj items) =
     (case make_request E tr ZonesUrl POST (Some (zone_creation items zone_name zone_kind)) of
        (Inl a, tr1) \<Rightarrow> (Inl a, tr1)
      | (Inr (status, body), tr1) \<Rightarrow>
          if status = Some 201 then
            (if zone_kind \<noteq> JStr ''Slave'' \<and>
                (case map_of items ''rrsets'' of None \<Rightarrow> False | Some r \<Rightarrow> truthy r)
             then
               let rrsets = dict_get items ''rrsets'' JNull in
               (case py_len rrsets of
                  None \<Rightarrow> (Inl (Raised (TypeError ''object has no len()'')), tr1)
                | Some _ \<Rightarrow>
                   (case make_request E tr1 (ZoneUrl zone_name) PATCH
                           (Some (JObj [(''rrsets'', rrsets)])) of
                      (Inl a, tr2) \<Rightarrow> (Inl a, tr2)
                    | (Inr (patch_status, _), tr2) \<Rightarrow>
                        if patch_status = Some 200 \<or> patch_status = Some 204
                        then (Inr True, tr2)
                        else (Inr False, tr2)))
             else (Inr True, tr1))
          else if status = Some 409 then (Inr True, tr1)
          else (Inr False, tr1))"
  by (simp add: create_zone_def)

subsection \<open>wait_for_api\<close>

lemma polls_Cons: "polls (r # rs) = Call GET ZonesUrl None (Inr r) # Slept # polls rs"
  by (simp add: polls_def)

lemma wait_loop_shape:
  "\<exists>rs fin. snd (wait_loop E tr n) = tr @ polls rs @ fin \<and> (\<forall>r\<in>set rs. fst r \<noteq> Some 200) \<and>
     ((fst (wait_loop E tr n) = Inr False \<and> fin = [] \<and> length rs = n) \<or>
      (fst (wait_loop E tr n) = Inr True \<and> length rs < n \<and>
         (\<exists>b. fin = [Call GET ZonesUrl None (Inr (Some 200, b))])) \<or>
      (\<exists>e. fst (wait_loop E tr n) = Inl (Raised e) \<and> length rs < n \<and>
         fin = [Call GET ZonesUrl None (Inl (Raised e))]) \<or>
      (\<exists>r. fst (wait_loop E tr n) = Inl (Raised KeyboardInterrupt) \<and> length rs < n \<and>
         fst r \<noteq> Some 200 \<and> fin = [Call GET ZonesUrl None (Inr r), Interrupted]))"
proof (induction n arbitrary: tr)
  case 0
  show ?case
    by (rule exI [of _ "[]"], rule exI [of _ "[]"]) (simp add: polls_def)
next
  case (Suc n)
  obtain r tr1 where mr: "make_request E tr ZonesUrl GET None = (r, tr1)"
    by (cases "make_request E tr ZonesUrl GET None")
  have tr1: "tr1 = tr @ [Call GET ZonesUrl None r]"
    using make_request_eq [OF mr] by (simp add: request_body_def)
  show ?case
  proof (cases r)
    case (Inl a)
    then obtain e where a: "a = Raised e"
      using make_request_Raised [of E tr ZonesUrl GET None a tr1] mr by auto
    show ?thesis
      by (rule exI [of _ "[]"], rule exI [of _ "[Call GET ZonesUrl None (Inl (Raised e))]"])
         (simp add: mr Inl a tr1 polls_def)
  next
    case (Inr p)
    obtain status body where p: "p = (status, body)" by (cases p)
    show ?thesis
    proof (cases "status = Some 200")
      case True
      show ?thesis
        by (rule exI [of _ "[]"], rule exI [of _ "[Call GET ZonesUrl None (Inr (Some 200, body))]"])
           (simp add: mr Inr p True tr1 polls_def)
    next
      case False
      show ?thesis
      proof (cases "sleep_interrupted E tr1")
        case True
        show ?thesis
          by (rule exI [of _ "[]"], rule exI [of _ "[Call GET ZonesUrl None (Inr p), Interrupted]"])
             (use False True in \<open>simp add: mr Inr p tr1 polls_def\<close>)
      next
        case si: False
        from Suc.IH [of "tr1 @ [Slept]"] obtain rs fin where
          IH: "snd (wait_loop E (tr1 @ [Slept]) n) = (tr1 @ [Slept]) @ polls rs @ fin"
            "\<forall>r\<in>set rs. fst r \<noteq> Some 200"
            "(fst (wait_loop E (tr1 @ [Slept]) n) = Inr False \<and> fin = [] \<and> length rs = n) \<or>
      (fst (wait_loop E (tr1 @ [Slept]) n) = Inr True \<and> length rs < n \<and>
         (\<exists>b. fin = [Call GET ZonesUrl None (Inr (Some 200, b))])) \<or>
      (\<exists>e. fst (wait_loop E (tr1 @ [Slept]) n) = Inl (Raised e) \<and> length rs < n \<and>
         fin = [Call GET ZonesUrl None (Inl (Raised e))]) \<or>
      (\<exists>r. fst (wait_loop E (tr1 @ [Slept]) n) = Inl (Raised KeyboardInterrupt) \<and> length rs < n \<and>
         fst r \<noteq> Some 200 \<and> fin = [Call GET ZonesUrl None (Inr r), Interrupted])"
          by blast
        have eq: "wait_loop E tr (Suc n) = wait_loop E (tr1 @ [Slept]) n"
          using False si by (simp add: mr Inr p)
        show ?thesis
          apply (rule exI [of _ "p # rs"], rule exI [of _ fin])
          unfolding eq
          using IH False by (simp add: polls_Cons tr1 p Inr)
      qed
    qed
  qed
qed

lemmas example_defs =
  api_def answer_ok_def answer_conflict_def answer_patch_rejected_def
  zone_native_def zone_slave_def zone_master_def zone_nameless_def

lemmas create_zone_eval =
  create_zone_def make_request_def zone_creation_def request_body_def dict_get_def Let_def

lemma filter_rrsets_nonempty:
  assumes "map_of items ''name'' = Some zone_name"
  shows "filter (\<lambda>(k, v). k \<noteq> ''rrsets'') items \<noteq> []"
proof -
  have "(''name'', zone_name) \<in> set items"
    using assms by (rule map_of_SomeD)
  then have "(''name'', zone_name) \<in> set (filter (\<lambda>(k, v). k \<noteq> ''rrsets'') items)"
    by simp
  then show ?thesis
    by (metis empty_iff empty_set)
qed

lemma zone_creation_truthy:
  "map_of items ''name'' = Some zone_name \<Longrightarrow>
   request_body (Some (zone_creation items zone_name zone_kind)) =
     Some (zone_creation items zone_name zone_kind)"
  by (simp add: zone_creation_def request_body_def filter_rrsets_nonempty)

subsection \<open>What each part of main adds to the trace\<close>

lemma create_zone_Raised:
  assumes "create_zone E tr z = (Inl a, tr')"
  shows "\<exists>e. a = Raised e"
proof (cases "\<exists>items zone_name zone_kind. z = JObj items \<and>
    map_of items ''name'' = Some zone_name \<and> map_of items ''kind'' = Some zone_kind")
  case False
  then show ?thesis using assms
    by (cases z) (auto simp: create_zone_def split: option.splits)
next
  case True
  then obtain items zone_name zone_kind where z: "z = JObj items"
    and name: "map_of items ''name'' = Some zone_name"
    and kind: "map_of items ''kind'' = Some zone_kind"
    by blast
  show ?thesis
    using assms unfolding z create_zone_JObj [OF name kind]
    by (auto simp: Let_def split: prod.splits sum.splits if_splits option.splits
        dest: make_request_Raised)
qed

lemma create_zone_extends:
  "\<exists>evs. snd (create_zone E tr z) = tr @ evs \<and>
     (\<forall>ev\<in>set evs. is_call POST ev \<or> is_call PATCH ev) \<and>
     length (filter (is_call POST) evs) \<le> 1"
proof -
  obtain r tr' where cz: "create_zone E tr z = (r, tr')"
    by (cases "create_zone E tr z")
  from create_zone_cases [OF cz] show ?thesis
    unfolding cz by (elim disjE exE conjE) simp_all
qed

lemma create_zones_extends:
  "\<exists>evs. snd (create_zones E tr zs c) = tr @ evs \<and>
     (\<forall>ev\<in>set evs. is_call POST ev \<or> is_call PATCH ev) \<and>
     length (filter (is_call POST) evs) \<le> length zs"
proof (induction zs arbitrary: tr c)
  case Nil
  show ?case by simp
next
  case (Cons z zs)
  obtain r tr1 where cz: "create_zone E tr z = (r, tr1)"
    by (cases "create_zone E tr z")
  from create_zone_extends [of E tr z] obtain evs1 where
    one: "tr1 = tr @ evs1" "\<forall>ev\<in>set evs1. is_call POST ev \<or> is_call PATCH ev"
      "length (filter (is_call POST) evs1) \<le> 1"
    unfolding cz by auto
  show ?case
  proof (cases r)
    case (Inl a)
    with cz one show ?thesis by simp
  next
    case (Inr ok)
    from Cons.IH [of tr1 "if ok then c + 1 else c"] obtain evs2 where
      rest: "snd (create_zones E tr1 zs (if ok then c + 1 else c)) = tr1 @ evs2"
        "\<forall>ev\<in>set evs2. is_call POST ev \<or> is_call PATCH ev"
        "length (filter (is_call POST) evs2) \<le> length zs"
      by blast
    have "snd (create_zones E tr (z # zs) c) = tr @ (evs1 @ evs2)"
      using cz Inr rest(1) one(1) by simp
    moreover have "\<forall>ev\<in>set (evs1 @ evs2). is_call POST ev \<or> is_call PATCH ev"
      using one(2) rest(2) by auto
    moreover have "length (filter (is_call POST) (evs1 @ evs2)) \<le> length (z # zs)"
      using one(3) rest(3) by simp
    ultimately show ?thesis by blast
  qed
qed

lemma create_zones_Raised:
  "create_zones E tr zs c = (Inl a, tr') \<Longrightarrow> \<exists>e. a = Raised e"
proof (induction zs arbitrary: tr c)
  case Nil
  then show ?case by simp
next
  case (Cons z zs)
  obtain r tr1 where cz: "create_zone E tr z = (r, tr1)"
    by (cases "create_zone E tr z")
  show ?case
  proof (cases r)
    case (Inl b)
    with Cons.prems cz have "b = a" by simp
    with cz Inl show ?thesis using create_zone_Raised by blast
  next
    case (Inr ok)
    with Cons.prems cz
    have "create_zones E tr1 zs (if ok then c + 1 else c) = (Inl a, tr')" by simp
    then show ?thesis by (rule Cons.IH)
  qed
qed

lemma list_zones_extends:
  "\<exists>evs. snd (list_zones tr zs) = tr @ evs \<and> (\<forall>ev\<in>set evs. \<exists>name kind. ev = Listed name kind)"
proof (induction zs arbitrary: tr)
  case Nil
  show ?case by simp
next
  case (Cons z zs)
  show ?case
  proof (cases "\<exists>name kind. subscript z ''name'' = Inr name \<and> subscript z ''kind'' = Inr kind")
    case False
    then show ?thesis
      by (auto split: sum.splits)
  next
    case True
    then obtain name kind where s: "subscript z ''name'' = Inr name" "subscript z ''kind'' = Inr kind"
      by blast
    from Cons.IH [of "tr @ [Listed name kind]"] obtain evs where
      "snd (list_zones (tr @ [Listed name kind]) zs) = (tr @ [Listed name kind]) @ evs"
      "\<forall>ev\<in>set evs. \<exists>name kind. ev = Listed name kind"
      by blast
    then have "snd (list_zones tr (z # zs)) = tr @ (Listed name kind # evs) \<and>
        (\<forall>ev\<in>set (Listed name kind # evs). \<exists>name kind. ev = Listed name kind)"
      using s by simp
    then show ?thesis by blast
  qed
qed

lemma list_zones_Raised: "list_zones tr zs = (Inl a, tr') \<Longrightarrow> \<exists>e. a = Raised e"
  by (induction zs arbitrary: tr) (auto split: sum.splits)

lemma zone_summary_extends:
  "\<exists>evs. snd (zone_summary E tr) = tr @ evs \<and>
     (\<forall>ev\<in>set evs. is_call GET ev \<or> (\<exists>name kind. ev = Listed name kind))"
proof -
  obtain p tr1 where mr: "make_request E tr ZonesUrl GET None = (p, tr1)"
    by (cases "make_request E tr ZonesUrl GET None")
  have tr1: "tr1 = tr @ [Call GET ZonesUrl None p]"
    using make_request_eq [OF mr] by (simp add: request_body_def)
  show ?thesis
  proof (cases "\<exists>b zones_list zs. p = Inr (Some 200, Some b) \<and> json_loads E b = Some zones_list \<and>
      py_iter zones_list = Some zs")
    case False
    then have "snd (zone_summary E tr) = tr @ [Call GET ZonesUrl None p]"
      using mr tr1 by (auto simp: zone_summary_def split: sum.splits option.splits)
    then show ?thesis by simp
  next
    case True
    then obtain b zones_list zs where p: "p = Inr (Some 200, Some b)"
      and l: "json_loads E b = Some zones_list" "py_iter zones_list = Some zs"
      by blast
    from list_zones_extends [of tr1 zs] obtain evs where
      evs: "snd (list_zones tr1 zs) = tr1 @ evs" "\<forall>ev\<in>set evs. \<exists>name kind. ev = Listed name kind"
      by blast
    have "snd (zone_summary E tr) = tr @ (Call GET ZonesUrl None p # evs)"
      using mr p l evs(1) tr1 by (simp add: zone_summary_def)
    moreover have "\<forall>ev\<in>set (Call GET ZonesUrl None p # evs).
        is_call GET ev \<or> (\<exists>name kind. ev = Listed name kind)"
      using evs(2) by simp
    ultimately show ?thesis by blast
  qed
qed

lemma zone_summary_Raised: "zone_summary E tr = (Inl a, tr') \<Longrightarrow> \<exists>e. a = Raised e"
  by (auto simp: zone_summary_def split: prod.splits sum.splits if_splits option.splits
      dest: make_request_Raised list_zones_Raised)

subsection \<open>The runs of main\<close>

lemma py_len_iter: "py_iter z = Some zs \<Longrightarrow> py_len z = Some (length zs)"
  by (cases z) auto

lemma py_iter_None: "py_iter z = None \<Longrightarrow> py_len z = None"
  by (cases z) auto

lemma main_missing: "\<not> file_exists E \<Longrightarrow> main E = (Inl (SystemExit 1), [])"
  by (simp add: main_def)

lemma main_not_ready:
  assumes "file_exists E" and "wait_for_api E [] 30 = (r, tr1)" and "r \<noteq> Inr True"
  shows "main E = (case r of Inl a \<Rightarrow> Inl a | Inr ready \<Rightarrow> Inl (SystemExit 1), tr1)"
  using assms by (auto simp: main_def split: sum.splits)

text \<open>Once the API is ready: the fixture is unusable, or the loop over its zones runs.\<close>

lemma main_ready:
  assumes "file_exists E" and "wait_for_api E [] 30 = (Inr True, tr1)"
  shows "(\<exists>e. main E = (Inl (Raised e), tr1 @ [LoadFixture])) \<or>
    (\<exists>items zs. load_file E = Inr (JObj items) \<and>
       py_iter (dict_get items ''zones'' (JArr [])) = Some zs \<and>
       main E =
         (case create_zones E (tr1 @ [LoadFixture]) zs 0 of
            (Inl a, tr2) \<Rightarrow> (Inl a, tr2)
          | (Inr success_count, tr2) \<Rightarrow>
              zone_summary E (tr2 @ [Report success_count (length zs)])))"
proof (cases "load_file E")
  case (Inl e)
  then show ?thesis using assms by (simp add: main_def)
next
  case (Inr test_data)
  show ?thesis
  proof (cases "\<exists>items. test_data = JObj items")
    case False
    then show ?thesis using assms Inr
      by (cases test_data) (simp_all add: main_def)
  next
    case True
    then obtain items where items: "test_data = JObj items" by blast
    show ?thesis
    proof (cases "py_iter (dict_get items ''zones'' (JArr []))")
      case None
      then show ?thesis using assms Inr items py_iter_None [OF None]
        by (simp add: main_def)
    next
      case (Some zs)
      then show ?thesis using assms Inr items py_len_iter [OF Some]
        by (simp add: main_def)
    qed
  qed
qed

lemma main_ready_extends:
  assumes "file_exists E" and "wait_for_api E [] 30 = (Inr True, tr1)"
  shows "\<exists>evs. snd (main E) = tr1 @ LoadFixture # evs"
proof -
  from main_ready [OF assms] show ?thesis
  proof (elim disjE exE conjE)
    fix e assume "main E = (Inl (Raised e), tr1 @ [LoadFixture])"
    then show ?thesis by simp
  next
    fix items zs
    assume m: "main E =
         (case create_zones E (tr1 @ [LoadFixture]) zs 0 of
            (Inl a, tr2) \<Rightarrow> (Inl a, tr2)
          | (Inr success_count, tr2) \<Rightarrow>
              zone_summary E (tr2 @ [Report success_count (length zs)]))"
    obtain rc tr2 where cz: "create_zones E (tr1 @ [LoadFixture]) zs 0 = (rc, tr2)"
      by (cases "create_zones E (tr1 @ [LoadFixture]) zs 0")
    from create_zones_extends [of E "tr1 @ [LoadFixture]" zs 0] obtain evs where
      tr2: "tr2 = (tr1 @ [LoadFixture]) @ evs"
      unfolding cz by auto
    show ?thesis
    proof (cases rc)
      case (Inl a)
      then show ?thesis using m cz tr2 by simp
    next
      case (Inr c)
      from zone_summary_extends [of E "tr2 @ [Report c (length zs)]"] obtain evs' where
        "snd (zone_summary E (tr2 @ [Report c (length zs)])) = (tr2 @ [Report c (length zs)]) @ evs'"
        by blast
      then show ?thesis using m cz tr2 Inr by simp
    qed
  qed
qed

lemma main_ready_result:
  assumes "file_exists E" and "wait_for_api E [] 30 = (Inr True, tr1)"
  shows "fst (main E) = Inr () \<or> (\<exists>e. fst (main E) = Inl (Raised e))"
proof -
  from main_ready [OF assms] show ?thesis
  proof (elim disjE exE conjE)
    fix e assume "main E = (Inl (Raised e), tr1 @ [LoadFixture])"
    then show ?thesis by simp
  next
    fix items zs
    assume m: "main E =
         (case create_zones E (tr1 @ [LoadFixture]) zs 0 of
            (Inl a, tr2) \<Rightarrow> (Inl a, tr2)
          | (Inr success_count, tr2) \<Rightarrow>
              zone_summary E (tr2 @ [Report success_count (length zs)]))"
    obtain rc tr2 where cz: "create_zones E (tr1 @ [LoadFixture]) zs 0 = (rc, tr2)"
      by (cases "create_zones E (tr1 @ [LoadFixture]) zs 0")
    show ?thesis
    proof (cases rc)
      case (Inl a)
      with create_zones_Raised [of E _ zs 0 a tr2] cz m show ?thesis by auto
    next
      case (Inr c)
      obtain rs tr3 where zs: "zone_summary E (tr2 @ [Report c (length zs)]) = (rs, tr3)"
        by (cases "zone_summary E (tr2 @ [Report c (length zs)])")
      show ?thesis
      proof (cases rs)
        case (Inl a)
        with zone_summary_Raised [of E _ a tr3] zs cz Inr m show ?thesis by auto
      next
        case Inr': (Inr u)
        with zs cz Inr m show ?thesis by simp
      qed
    qed
  qed
qed

lemma exit_code_Raised: "exit_code (Inl (Raised e)) = 1"
  by (cases e) simp_all

text \<open>The ways wait_for_api ends, for the 30 attempts of main.\<close>

lemma wait_for_api_ways:
  assumes "wait_for_api E [] 30 = (r, tr1)"
  obtains
    (not_ready) rs where "r = Inr False" "tr1 = polls rs"
  | (ready) rs b where "r = Inr True" "length rs < 30"
      "tr1 = polls rs @ [Call GET ZonesUrl None (Inr (Some 200, b))]"
  | (raised) rs e where "r = Inl (Raised e)" "tr1 = polls rs @ [Call GET ZonesUrl None (Inl (Raised e))]"
  | (interrupted) rs p where "r = Inl (Raised KeyboardInterrupt)"
      "tr1 = polls rs @ [Call GET ZonesUrl None (Inr p), Interrupted]"
proof -
  have "fst (wait_loop E [] 30) = r" "snd (wait_loop E [] 30) = tr1"
    using assms by (simp_all add: wait_for_api_def)
  with wait_loop_shape [of E "[]" 30] that show thesis
    by (elim exE conjE disjE) auto
qed

lemma in_take_append: "length xs \<le> n \<Longrightarrow> x \<in> set xs \<Longrightarrow> x \<in> set (take n (xs @ ys))"
  by simp

lemma polls_quiet:
  "LoadFixture \<notin> set (polls rs) \<and>
   (\<forall>ev\<in>set (polls rs). \<not> is_call POST ev \<and> \<not> is_call PATCH ev)"
  by (auto simp: polls_def)

lemma filter_get_polls:
  "filter (is_call GET) (polls rs) = map (\<lambda>p. Call GET ZonesUrl None (Inr p)) rs"
  by (induction rs) (simp_all add: polls_def)

lemma wait_loop_down:
  "wait_loop (api fixture answer_down) tr n =
     (Inr False, tr @ polls (replicate n (None, Some ''Connection refused'')))"
  by (induction n arbitrary: tr)
     (simp_all add: polls_def make_request_def request_body_def api_def answer_down_def Let_def)

lemmas main_eval =
  main_def wait_for_api_def zone_summary_def create_zone_eval eval_nat_numeral

subsection \<open>Zones that are all created\<close>

lemma create_zone_ok:
  assumes cz: "create_zone E tr z = (r, tr')"
    and z: "zone_descriptor z"
    and post: "\<forall>u d p. Call POST u d p \<in> set tr' \<longrightarrow> (\<exists>b. p = Inr (Some 201, b))"
    and patch: "\<forall>u d p. Call PATCH u d p \<in> set tr' \<longrightarrow>
        (\<exists>b. p = Inr (Some 200, b)) \<or> (\<exists>b. p = Inr (Some 204, b))"
  shows "r = Inr True"
proof -
  from z obtain items zone_name zone_kind where obj: "z = JObj items"
    and name: "map_of items ''name'' = Some zone_name"
    and kind: "map_of items ''kind'' = Some zone_kind"
    and rrsets: "map_of items ''rrsets'' = None \<or> (\<exists>xs. map_of items ''rrsets'' = Some (JArr xs))"
    by (cases z) (auto split: option.splits json.splits)
  let ?payload = "zone_creation items zone_name zone_kind"
  obtain p tr1 where mr: "make_request E tr ZonesUrl POST (Some ?payload) = (p, tr1)"
    by (cases "make_request E tr ZonesUrl POST (Some ?payload)")
  have tr1: "tr1 = tr @ [Call POST ZonesUrl (request_body (Some ?payload)) p]"
    by (rule make_request_eq [OF mr])
  note unfold = cz [unfolded obj create_zone_JObj [OF name kind] mr]
  show ?thesis
  proof (cases "\<exists>b. p = Inr (Some 201, b)")
    case False
    then have "tr' = tr1"
      using unfold by (auto split: sum.splits if_splits)
    with tr1 post False show ?thesis by auto
  next
    case True
    then obtain b where p: "p = Inr (Some 201, b)" by blast
    show ?thesis
    proof (cases "zone_kind \<noteq> JStr ''Slave'' \<and>
        (case map_of items ''rrsets'' of None \<Rightarrow> False | Some r \<Rightarrow> truthy r)")
      case False
      then show ?thesis using unfold p by auto
    next
      case patching: True
      with rrsets obtain xs where xs: "map_of items ''rrsets'' = Some (JArr xs)"
        by auto
      then have get: "dict_get items ''rrsets'' JNull = JArr xs"
        by (simp add: dict_get_def)
      obtain p' tr2 where mr': "make_request E tr1 (ZoneUrl zone_name) PATCH
          (Some (JObj [(''rrsets'', JArr xs)])) = (p', tr2)"
        by (cases "make_request E tr1 (ZoneUrl zone_name) PATCH
          (Some (JObj [(''rrsets'', JArr xs)]))")
      have tr2: "tr2 = tr1 @ [Call PATCH (ZoneUrl zone_name)
          (request_body (Some (JObj [(''rrsets'', JArr xs)]))) p']"
        by (rule make_request_eq [OF mr'])
      have end': "tr' = tr2"
        using unfold p patching get mr' by (auto split: sum.splits if_splits)
      with tr2 patch have "(\<exists>b. p' = Inr (Some 200, b)) \<or> (\<exists>b. p' = Inr (Some 204, b))"
        by auto
      then show ?thesis
        using unfold p patching get mr' by auto
    qed
  qed
qed

lemma create_zones_all_ok:
  assumes "create_zones E tr zs c = (rc, tr')"
    and "\<forall>z\<in>set zs. zone_descriptor z"
    and "\<forall>u d p. Call POST u d p \<in> set tr' \<longrightarrow> (\<exists>b. p = Inr (Some 201, b))"
    and "\<forall>u d p. Call PATCH u d p \<in> set tr' \<longrightarrow>
        (\<exists>b. p = Inr (Some 200, b)) \<or> (\<exists>b. p = Inr (Some 204, b))"
  shows "rc = Inr (c + length zs)"
  using assms
proof (induction zs arbitrary: tr c)
  case Nil
  then show ?case by simp
next
  case (Cons z zs)
  obtain r tr1 where cz: "create_zone E tr z = (r, tr1)"
    by (cases "create_zone E tr z")
  have sub: "set tr1 \<subseteq> set tr'"
  proof (cases r)
    case (Inl a)
    with Cons.prems(1) cz show ?thesis by simp
  next
    case (Inr ok)
    with Cons.prems(1) cz
    have "snd (create_zones E tr1 zs (if ok then c + 1 else c)) = tr'" by simp
    with create_zones_extends [of E tr1 zs "if ok then c + 1 else c"] show ?thesis
      by auto
  qed
  have "r = Inr True"
  proof (rule create_zone_ok [OF cz])
    show "zone_descriptor z" using Cons.prems(2) by simp
    show "\<forall>u d p. Call POST u d p \<in> set tr1 \<longrightarrow> (\<exists>b. p = Inr (Some 201, b))"
      using Cons.prems(3) sub by blast
    show "\<forall>u d p. Call PATCH u d p \<in> set tr1 \<longrightarrow>
        (\<exists>b. p = Inr (Some 200, b)) \<or> (\<exists>b. p = Inr (Some 204, b))"
      using Cons.prems(4) sub by blast
  qed
  with Cons.prems(1) cz have rest: "create_zones E tr1 zs (c + 1) = (rc, tr')"
    by simp
  have "rc = Inr (c + 1 + length zs)"
    using rest Cons.prems(2,3,4) by (intro Cons.IH) auto
  then show ?case by simp
qed

subsection \<open>A zone that cannot be created\<close>

lemma create_zones_append:
  "create_zones E tr (xs @ ys) c =
     (case create_zones E tr xs c of
        (Inl a, t) \<Rightarrow> (Inl a, t)
      | (Inr c', t) \<Rightarrow> create_zones E t ys c')"
  by (induction xs arbitrary: tr c) (auto split: prod.splits sum.splits)

lemma create_zone_KeyError:
  assumes "map_of items ''name'' = None \<or> map_of items ''kind'' = None"
  shows "create_zone E tr (JObj items) =
    (Inl (Raised (KeyError (if map_of items ''name'' = None then ''name'' else ''kind''))), tr)"
  using assms by (auto simp: create_zone_def split: option.splits)

lemma create_zones_malformed:
  assumes "map_of items ''name'' = None \<or> map_of items ''kind'' = None"
  shows "create_zones E tr (before @ JObj items # after) c =
    (case create_zones E tr before c of
       (Inl a, t) \<Rightarrow> (Inl a, t)
     | (Inr c', t) \<Rightarrow>
         (Inl (Raised (KeyError (if map_of items ''name'' = None then ''name'' else ''kind''))), t))"
  by (simp add: create_zones_append create_zone_KeyError [OF assms] cong: prod.case_cong sum.case_cong)

subsection \<open>When make_request returns\<close>

lemma make_request_returns:
  assumes "\<forall>code e. respond E tr m u (request_body d) \<noteq> HTTPError code (Inl e)"
    and "\<forall>status. respond E tr m u (request_body d) \<noteq> Response status (Inl KeyboardInterrupt)"
    and "respond E tr m u (request_body d) \<noteq> Failed KeyboardInterrupt"
  shows "\<exists>status body. fst (make_request E tr u m d) = Inr (status, body)"
proof (cases "respond E tr m u (request_body d)" rule: urlopen_result.cases)
  case (1 status body)
  then show ?thesis by (simp add: make_request_def Let_def)
next
  case (2 status e)
  with assms(2) have "is_Exception e" by (cases e) auto
  with 2 show ?thesis by (simp add: make_request_def Let_def)
next
  case (3 code body)
  then show ?thesis by (simp add: make_request_def Let_def)
next
  case (4 code e)
  with assms(1) show ?thesis by simp
next
  case (5 e)
  with assms(3) have "is_Exception e" by (cases e) auto
  with 5 show ?thesis by (simp add: make_request_def Let_def)
qed

lemma make_request_unreachable:
  assumes "respond E tr m u (request_body d) = Failed e" and "is_Exception e"
  shows "fst (make_request E tr u m d) = Inr (None, Some (str_exn e))"
  using assms by (simp add: make_request_def Let_def)

lemma create_zone_unreachable:
  assumes "map_of items ''name'' = Some zone_name" and "map_of items ''kind'' = Some zone_kind"
    and "respond E tr POST ZonesUrl (Some (zone_creation items zone_name zone_kind)) = Failed e"
    and "is_Exception e"
  shows "fst (create_zone E tr (JObj items)) = Inr False"
  using assms(3,4)
  by (simp add: create_zone_JObj [OF assms(1,2)] make_request_def Let_def
      zone_creation_truthy [OF assms(1)])

section \<open>The claims\<close>

text \<open>
  C2. For a zone descriptor of kind "Slave" (with its name), the one event create_zone adds
  to the trace is the POST to the zones collection, and its payload has the four keys
  name, kind, masters and nameservers and nothing else: no rrsets key, and no PATCH
  follows, whatever rrsets the descriptor holds.
\<close>

theorem slave_zone_sends_no_rrsets:
  assumes "map_of items ''name'' = Some zone_name"
    and "map_of items ''kind'' = Some (JStr ''Slave'')"
  shows "\<exists>r. snd (create_zone E tr (JObj items)) =
      tr @ [Call POST ZonesUrl
             (Some (JObj [(''name'', zone_name), (''kind'', JStr ''Slave''),
                          (''masters'', dict_get items ''masters'' (JArr [])),
                          (''nameservers'', dict_get items ''nameservers'' (JArr []))])) r]"
proof -
  let ?payload = "zone_creation items zone_name (JStr ''Slave'')"
  obtain p tr1 where post: "make_request E tr ZonesUrl POST (Some ?payload) = (p, tr1)"
    by (cases "make_request E tr ZonesUrl POST (Some ?payload)")
  have payload: "?payload = JObj [(''name'', zone_name), (''kind'', JStr ''Slave''),
                          (''masters'', dict_get items ''masters'' (JArr [])),
                          (''nameservers'', dict_get items ''nameservers'' (JArr []))]"
    by (simp add: zone_creation_def)
  have tr1: "tr1 = tr @ [Call POST ZonesUrl (Some ?payload) p]"
    using make_request_eq [OF post] by (simp add: payload request_body_def)
  have "snd (create_zone E tr (JObj items)) = tr1"
    using post by (simp add: create_zone_JObj [OF assms] split: sum.splits)
  then show ?thesis
    using tr1 payload by auto
qed

theorem slave_zone_sends_no_rrsets_witness:
  "map_of zone_slave ''name'' = Some (JStr ''s.test.'') \<and>
   map_of zone_slave ''kind'' = Some (JStr ''Slave'') \<and>
   map_of zone_slave ''rrsets'' = Some (JArr [rrset_www]) \<and>
   snd (create_zone (api JNull answer_ok) [] (JObj zone_slave)) =
     [Call POST ZonesUrl
        (Some (JObj [(''name'', JStr ''s.test.''), (''kind'', JStr ''Slave''),
                     (''masters'', JArr [JStr ''192.0.2.1'']), (''nameservers'', JArr [])]))
        (Inr (Some 201, Some ''{}''))]"
proof -
  have n: "map_of zone_slave ''name'' = Some (JStr ''s.test.'')"
    and k: "map_of zone_slave ''kind'' = Some (JStr ''Slave'')"
    by (simp_all add: zone_slave_def)
  have r: "map_of zone_slave ''rrsets'' = Some (JArr [rrset_www])"
    by (simp add: zone_slave_def)
  from slave_zone_sends_no_rrsets [OF n k, of "api JNull answer_ok" "[]"]
  show ?thesis using n k r
    by (simp add: create_zone_def make_request_def zone_creation_def api_def
        answer_ok_def request_body_def dict_get_def zone_slave_def Let_def)
qed

text \<open>
  C3. Whatever the zone descriptor, when the events create_zone adds hold a POST that was
  answered with status 409, create_zone returns True (the zone counts as a success) and
  that POST is the only event: no PATCH is made.
\<close>

theorem conflict_counts_as_success:
  assumes "create_zone E tr zone_data = (r, tr @ evs)"
    and "Call POST u d (Inr (Some 409, body)) \<in> set evs"
  shows "r = Inr True \<and> evs = [Call POST u d (Inr (Some 409, body))] \<and>
    (\<forall>u' d' r'. Call PATCH u' d' r' \<notin> set evs)"
proof -
  from create_zone_cases [OF assms(1)]
  consider (none) "evs = []"
    | (post) d' p where "evs = [Call POST ZonesUrl d' p]"
        "case p of Inl a \<Rightarrow> r = Inl a
         | Inr (status, body) \<Rightarrow>
             if status = Some 201 then r = Inr True \<or> (\<exists>e. r = Inl (Raised e))
             else r = Inr (status = Some 409)"
    | (patch) d' b u' d'' p' where
        "evs = [Call POST ZonesUrl d' (Inr (Some 201, b)), Call PATCH u' d'' p']"
    by auto
  then show ?thesis
  proof cases
    case none
    with assms(2) show ?thesis by simp
  next
    case post
    from assms(2) post(1) have p: "p = Inr (Some 409, body)" and "u = ZonesUrl" "d = d'"
      by simp_all
    with post show ?thesis by simp
  next
    case patch
    with assms(2) show ?thesis by simp
  qed
qed

theorem conflict_counts_as_success_witness:
  "create_zone (api JNull answer_conflict) [] (JObj zone_native) =
     (Inr True, [] @ [Call POST ZonesUrl (Some (JObj (butlast zone_native)))
                        (Inr (Some 409, Some ''Conflict''))]) \<and>
   Call POST ZonesUrl (Some (JObj (butlast zone_native))) (Inr (Some 409, Some ''Conflict''))
     \<in> set [Call POST ZonesUrl (Some (JObj (butlast zone_native)))
               (Inr (Some 409, Some ''Conflict''))] \<and>
   map_of zone_native ''rrsets'' = Some (JArr [rrset_www])"
proof -
  have run: "create_zone (api JNull answer_conflict) [] (JObj zone_native) =
     (Inr True, [] @ [Call POST ZonesUrl (Some (JObj (butlast zone_native)))
                        (Inr (Some 409, Some ''Conflict''))])"
    by (simp add: create_zone_eval example_defs)
  have mem: "Call POST ZonesUrl (Some (JObj (butlast zone_native)))
      (Inr (Some 409, Some ''Conflict''))
     \<in> set [Call POST ZonesUrl (Some (JObj (butlast zone_native)))
               (Inr (Some 409, Some ''Conflict''))]"
    by simp
  from conflict_counts_as_success [OF run mem] run mem show ?thesis
    by (simp add: zone_native_def)
qed

text \<open>
  C8. For a descriptor of kind "Native" or "Master" whose rrsets are absent or an empty
  list, the one event create_zone adds is the creation POST (whose payload is the
  descriptor without its rrsets key): no PATCH is made.
\<close>

theorem no_patch_without_rrsets:
  assumes "map_of items ''name'' = Some zone_name"
    and "map_of items ''kind'' = Some (JStr ''Native'') \<or>
         map_of items ''kind'' = Some (JStr ''Master'')"
    and "map_of items ''rrsets'' = None \<or> map_of items ''rrsets'' = Some (JArr [])"
  shows "\<exists>r. snd (create_zone E tr (JObj items)) =
      tr @ [Call POST ZonesUrl (Some (JObj (filter (\<lambda>(k, v). k \<noteq> ''rrsets'') items))) r]"
proof -
  from assms(2) obtain zone_kind where kind: "map_of items ''kind'' = Some zone_kind"
    and ns: "zone_kind \<noteq> JStr ''Slave''"
    by auto
  let ?payload = "zone_creation items zone_name zone_kind"
  obtain p tr1 where post: "make_request E tr ZonesUrl POST (Some ?payload) = (p, tr1)"
    by (cases "make_request E tr ZonesUrl POST (Some ?payload)")
  have payload: "?payload = JObj (filter (\<lambda>(k, v). k \<noteq> ''rrsets'') items)"
    using ns by (simp add: zone_creation_def)
  have tr1: "tr1 = tr @ [Call POST ZonesUrl (Some ?payload) p]"
    using make_request_eq [OF post] by (simp add: zone_creation_truthy [OF assms(1)])
  have falsy: "\<not> (case map_of items ''rrsets'' of None \<Rightarrow> False | Some r \<Rightarrow> truthy r)"
    using assms(3) by auto
  have "snd (create_zone E tr (JObj items)) = tr1"
    using post falsy by (simp add: create_zone_JObj [OF assms(1) kind] split: sum.splits)
  then show ?thesis
    using tr1 payload by auto
qed

theorem no_patch_without_rrsets_witness:
  "map_of zone_master ''name'' = Some (JStr ''m.test.'') \<and>
   map_of zone_master ''kind'' = Some (JStr ''Master'') \<and>
   map_of zone_master ''rrsets'' = Some (JArr []) \<and>
   snd (create_zone (api JNull answer_ok) [] (JObj zone_master)) =
     [Call POST ZonesUrl (Some (JObj [(''name'', JStr ''m.test.''), (''kind'', JStr ''Master'')]))
        (Inr (Some 201, Some ''{}''))]"
proof -
  have n: "map_of zone_master ''name'' = Some (JStr ''m.test.'')"
    by (simp add: zone_master_def)
  have k: "map_of zone_master ''kind'' = Some (JStr ''Native'') \<or>
      map_of zone_master ''kind'' = Some (JStr ''Master'')"
    by (simp add: zone_master_def)
  have r: "map_of zone_master ''rrsets'' = None \<or> map_of zone_master ''rrsets'' = Some (JArr [])"
    by (simp add: zone_master_def)
  from no_patch_without_rrsets [OF n k r, of "api JNull answer_ok" "[]"]
  show ?thesis
    by (simp add: create_zone_eval example_defs)
qed

text \<open>
  C4. For a descriptor that is not of kind "Slave" and has a non-empty rrsets list: when the
  POST is answered with 201 and the one PATCH that carries all the record sets with a
  status other than 200 and 204, create_zone returns False, the POST and the PATCH are
  the only two requests (nothing undoes the creation), and the loop of main goes on with
  the next zone, the success count unchanged.
\<close>

theorem failed_patch_is_not_rolled_back:
  assumes name: "map_of items ''name'' = Some zone_name"
    and kind: "map_of items ''kind'' = Some zone_kind"
    and not_slave: "zone_kind \<noteq> JStr ''Slave''"
    and rrsets: "map_of items ''rrsets'' = Some (JArr (x # xs))"
    and post: "make_request E tr ZonesUrl POST (Some (zone_creation items zone_name zone_kind)) =
        (Inr (Some 201, body), tr1)"
    and patch: "make_request E tr1 (ZoneUrl zone_name) PATCH
          (Some (JObj [(''rrsets'', JArr (x # xs))])) = (Inr (patch_status, body'), tr2)"
    and rejected: "patch_status \<noteq> Some 200" "patch_status \<noteq> Some 204"
  shows "create_zone E tr (JObj items) = (Inr False, tr2) \<and>
    tr2 = tr @ [Call POST ZonesUrl (Some (JObj (filter (\<lambda>(k, v). k \<noteq> ''rrsets'') items)))
                  (Inr (Some 201, body)),
                Call PATCH (ZoneUrl zone_name) (Some (JObj [(''rrsets'', JArr (x # xs))]))
                  (Inr (patch_status, body'))] \<and>
    create_zones E tr (JObj items # zones) success_count = create_zones E tr2 zones success_count"
proof -
  have get: "dict_get items ''rrsets'' JNull = JArr (x # xs)"
    using rrsets by (simp add: dict_get_def)
  have cz: "create_zone E tr (JObj items) = (Inr False, tr2)"
    using post patch rejected not_slave rrsets
    by (simp add: create_zone_JObj [OF name kind] get)
  have payload: "zone_creation items zone_name zone_kind =
      JObj (filter (\<lambda>(k, v). k \<noteq> ''rrsets'') items)"
    using not_slave by (simp add: zone_creation_def)
  have tr1: "tr1 = tr @ [Call POST ZonesUrl (Some (JObj (filter (\<lambda>(k, v). k \<noteq> ''rrsets'') items)))
                  (Inr (Some 201, body))]"
    using make_request_eq [OF post] zone_creation_truthy [OF name, of zone_kind]
    by (simp add: payload)
  have tr2: "tr2 = tr1 @ [Call PATCH (ZoneUrl zone_name) (Some (JObj [(''rrsets'', JArr (x # xs))]))
                  (Inr (patch_status, body'))]"
    using make_request_eq [OF patch] by (simp add: request_body_def)
  show ?thesis
    using cz tr1 tr2 by simp
qed

theorem failed_patch_is_not_rolled_back_witness:
  "create_zone (api JNull answer_patch_rejected) [] (JObj zone_native) =
     (Inr False,
      [Call POST ZonesUrl (Some (JObj (butlast zone_native))) (Inr (Some 201, Some ''{}'')),
       Call PATCH (ZoneUrl (JStr ''a.test.'')) (Some (JObj [(''rrsets'', JArr [rrset_www])]))
         (Inr (Some 422, Some ''Unprocessable''))]) \<and>
   create_zones (api JNull answer_patch_rejected) [] [JObj zone_native, JObj zone_slave] 0 =
     (Inr 1,
      [Call POST ZonesUrl (Some (JObj (butlast zone_native))) (Inr (Some 201, Some ''{}'')),
       Call PATCH (ZoneUrl (JStr ''a.test.'')) (Some (JObj [(''rrsets'', JArr [rrset_www])]))
         (Inr (Some 422, Some ''Unprocessable'')),
       Call POST ZonesUrl
         (Some (JObj [(''name'', JStr ''s.test.''), (''kind'', JStr ''Slave''),
                      (''masters'', JArr [JStr ''192.0.2.1'']), (''nameservers'', JArr [])]))
         (Inr (Some 201, Some ''{}''))])"
proof -
  let ?E = "api JNull answer_patch_rejected"
  let ?post = "Call POST ZonesUrl (Some (JObj (butlast zone_native))) (Inr (Some 201, Some ''{}''))"
  have name: "map_of zone_native ''name'' = Some (JStr ''a.test.'')"
    and kind: "map_of zone_native ''kind'' = Some (JStr ''Native'')"
    and rrsets: "map_of zone_native ''rrsets'' = Some (JArr (rrset_www # []))"
    by (simp_all add: zone_native_def)
  have not_slave: "JStr ''Native'' \<noteq> JStr ''Slave''" by simp
  have post: "make_request ?E [] ZonesUrl POST
        (Some (zone_creation zone_native (JStr ''a.test.'') (JStr ''Native''))) =
      (Inr (Some 201, Some ''{}''), [?post])"
    by (simp add: create_zone_eval example_defs)
  have patch: "make_request ?E [?post] (ZoneUrl (JStr ''a.test.'')) PATCH
        (Some (JObj [(''rrsets'', JArr (rrset_www # []))])) =
      (Inr (Some 422, Some ''Unprocessable''),
       [?post, Call PATCH (ZoneUrl (JStr ''a.test.'')) (Some (JObj [(''rrsets'', JArr [rrset_www])]))
         (Inr (Some 422, Some ''Unprocessable''))])"
    by (simp add: create_zone_eval example_defs)
  have rejected: "Some (422::nat) \<noteq> Some 200" "Some (422::nat) \<noteq> Some 204"
    by simp_all
  from failed_patch_is_not_rolled_back [OF name kind not_slave rrsets post patch rejected,
      of "[JObj zone_slave]" 0]
  show ?thesis
    by (simp add: create_zone_eval example_defs)
qed

text \<open>
  C7. wait_for_api adds to the trace a run of polls, each one GET of the zones collection
  answered with a status other than 200 and one full sleep, and then stops in one of
  four ways: after max_attempts such polls, with False; on a GET answered 200, with True
  and nothing after it; on a GET that raised; on a sleep that was interrupted. In every
  case it has made at most max_attempts requests. So it returns True exactly when the last
  event is the first GET answered 200, and False exactly when all max_attempts polls were
  answered otherwise.
\<close>

theorem wait_for_api_polls:
  assumes "wait_for_api E tr max_attempts = (r, tr')"
  shows "\<exists>rs fin. tr' = tr @ polls rs @ fin \<and> (\<forall>p\<in>set rs. fst p \<noteq> Some 200) \<and>
     ((r = Inr False \<and> fin = [] \<and> length rs = nat max_attempts) \<or>
      (r = Inr True \<and> length rs < nat max_attempts \<and>
         (\<exists>b. fin = [Call GET ZonesUrl None (Inr (Some 200, b))])) \<or>
      (\<exists>e. r = Inl (Raised e) \<and> length rs < nat max_attempts \<and>
         fin = [Call GET ZonesUrl None (Inl (Raised e))]) \<or>
      (\<exists>p. r = Inl (Raised KeyboardInterrupt) \<and> length rs < nat max_attempts \<and>
         fst p \<noteq> Some 200 \<and> fin = [Call GET ZonesUrl None (Inr p), Interrupted])) \<and>
     (r = Inr True \<longleftrightarrow> (\<exists>b. fin = [Call GET ZonesUrl None (Inr (Some 200, b))])) \<and>
     (r = Inr False \<longleftrightarrow> fin = [] \<and> length rs = nat max_attempts)"
proof -
  have r: "fst (wait_loop E tr (nat max_attempts)) = r"
    and tr': "snd (wait_loop E tr (nat max_attempts)) = tr'"
    using assms by (simp_all add: wait_for_api_def)
  from wait_loop_shape [of E tr "nat max_attempts"] obtain rs fin where
    shape: "tr' = tr @ polls rs @ fin" "\<forall>p\<in>set rs. fst p \<noteq> Some 200"
    and ways: "(r = Inr False \<and> fin = [] \<and> length rs = nat max_attempts) \<or>
      (r = Inr True \<and> length rs < nat max_attempts \<and>
         (\<exists>b. fin = [Call GET ZonesUrl None (Inr (Some 200, b))])) \<or>
      (\<exists>e. r = Inl (Raised e) \<and> length rs < nat max_attempts \<and>
         fin = [Call GET ZonesUrl None (Inl (Raised e))]) \<or>
      (\<exists>p. r = Inl (Raised KeyboardInterrupt) \<and> length rs < nat max_attempts \<and>
         fst p \<noteq> Some 200 \<and> fin = [Call GET ZonesUrl None (Inr p), Interrupted])"
    unfolding r tr' by blast
  from ways have t: "r = Inr True \<longleftrightarrow> (\<exists>b. fin = [Call GET ZonesUrl None (Inr (Some 200, b))])"
    by auto
  from ways have f: "r = Inr False \<longleftrightarrow> fin = [] \<and> length rs = nat max_attempts"
    by auto
  from shape ways t f show ?thesis
    by blast
qed

theorem wait_for_api_polls_witness:
  "wait_for_api (api JNull answer_starting) [] 5 =
     (Inr True,
      polls [(Some 503, Some ''Service Unavailable''), (Some 503, Some ''Service Unavailable'')] @
      [Call GET ZonesUrl None (Inr (Some 200, Some ''[]''))]) \<and>
   wait_for_api (api JNull answer_down) [] 3 =
     (Inr False, polls (replicate 3 (None, Some ''Connection refused'')))"
proof -
  have a: "wait_for_api (api JNull answer_starting) [] 5 =
     (Inr True,
      polls [(Some 503, Some ''Service Unavailable''), (Some 503, Some ''Service Unavailable'')] @
      [Call GET ZonesUrl None (Inr (Some 200, Some ''[]''))])"
    by (simp add: wait_for_api_def eval_nat_numeral make_request_def request_body_def Let_def
        api_def answer_starting_def polls_def)
  have b: "wait_for_api (api JNull answer_down) [] 3 =
     (Inr False, polls (replicate 3 (None, Some ''Connection refused'')))"
    by (simp add: wait_for_api_def eval_nat_numeral make_request_def request_body_def Let_def
        api_def answer_down_def polls_def)
  from wait_for_api_polls [OF a] wait_for_api_polls [OF b] a b show ?thesis
    by simp
qed

text \<open>
  C5. When none of the first 30 GET requests of a run (30 is the attempt budget main
  gives wait_for_api) is answered with status 200, the exit code is 1, the fixture is
  never loaded and the trace holds no POST and no PATCH.
\<close>

theorem never_ready_exits_before_fixture:
  assumes "run E = (code, tr)"
    and "\<forall>u d body. Call GET u d (Inr (Some 200, body)) \<notin> set (take 30 (filter (is_call GET) tr))"
  shows "code = 1 \<and> LoadFixture \<notin> set tr \<and>
    (\<forall>ev\<in>set tr. \<not> is_call POST ev \<and> \<not> is_call PATCH ev)"
proof (cases "file_exists E")
  case False
  with assms(1) show ?thesis
    by (simp add: run_def main_missing)
next
  case True
  obtain r tr1 where w: "wait_for_api E [] 30 = (r, tr1)"
    by (cases "wait_for_api E [] 30")
  have code: "code = exit_code (fst (main E))" and tr: "tr = snd (main E)"
    using assms(1) by (simp_all add: run_def)
  from w show ?thesis
  proof (cases rule: wait_for_api_ways)
    case (not_ready rs)
    with main_not_ready [OF True w] have "main E = (Inl (SystemExit 1), polls rs)"
      by simp
    then show ?thesis
      unfolding code tr using polls_quiet [of rs] by auto
  next
    case (raised rs e)
    with main_not_ready [OF True w]
    have "main E = (Inl (Raised e), polls rs @ [Call GET ZonesUrl None (Inl (Raised e))])"
      by simp
    then show ?thesis
      unfolding code tr using polls_quiet [of rs] by (auto simp: exit_code_Raised)
  next
    case (interrupted rs p)
    with main_not_ready [OF True w]
    have "main E = (Inl (Raised KeyboardInterrupt),
        polls rs @ [Call GET ZonesUrl None (Inr p), Interrupted])"
      by simp
    then show ?thesis
      unfolding code tr using polls_quiet [of rs] by auto
  next
    case (ready rs b)
    let ?ok = "Call GET ZonesUrl None (Inr (Some 200, b))"
    let ?gets = "map (\<lambda>p. Call GET ZonesUrl None (Inr p)) rs @ [?ok]"
    from main_ready_extends [OF True] w ready(1) obtain evs where
      "snd (main E) = tr1 @ LoadFixture # evs"
      by auto
    then have "filter (is_call GET) tr = ?gets @ filter (is_call GET) evs"
      unfolding tr ready(3) by (simp add: filter_get_polls)
    moreover have "length ?gets \<le> 30"
      using ready(2) by simp
    moreover have "?ok \<in> set ?gets"
      by simp
    ultimately have "?ok \<in> set (take 30 (filter (is_call GET) tr))"
      by (simp only: in_take_append)
    with assms(2) show ?thesis by blast
  qed
qed

theorem never_ready_exits_before_fixture_witness:
  "run (api fixture_three answer_down) =
     (1, polls (replicate 30 (None, Some ''Connection refused''))) \<and>
   (\<forall>u d body. Call GET u d (Inr (Some 200, body)) \<notin>
      set (take 30 (filter (is_call GET) (polls (replicate 30 (None, Some ''Connection refused''))))))"
proof -
  let ?E = "api fixture_three answer_down"
  let ?tr = "polls (replicate 30 (None, Some ''Connection refused''))"
  have "main ?E = (Inl (SystemExit 1), ?tr)"
    using wait_loop_down [of fixture_three "[]" 30]
    by (simp add: main_def wait_for_api_def) (simp add: api_def)
  then have run: "run ?E = (1, ?tr)"
    by (simp add: run_def)
  have quiet: "\<forall>u d body. Call GET u d (Inr (Some 200, body)) \<notin>
      set (take 30 (filter (is_call GET) ?tr))"
    by (auto simp: filter_get_polls dest!: in_set_takeD)
  from never_ready_exits_before_fixture [OF run quiet] run quiet show ?thesis
    by simp
qed

text \<open>
  C6. The exit code of a run is 0 exactly when main returns, whatever the zones did, and
  1 exactly when the fixture file is absent, or wait_for_api returned False, or main
  raised an exception (KeyboardInterrupt among them); there is no third code.
\<close>

theorem exit_code_of_run:
  "(fst (run E) = 0 \<longleftrightarrow> fst (main E) = Inr ()) \<and>
   (fst (run E) = 1 \<longleftrightarrow>
      \<not> file_exists E \<or>
      (file_exists E \<and> fst (wait_for_api E [] 30) = Inr False) \<or>
      (\<exists>e. fst (main E) = Inl (Raised e))) \<and>
   (fst (run E) = 0 \<or> fst (run E) = 1)"
proof (cases "file_exists E")
  case False
  then show ?thesis
    by (simp add: run_def main_missing)
next
  case True
  obtain r tr1 where w: "wait_for_api E [] 30 = (r, tr1)"
    by (cases "wait_for_api E [] 30")
  from w show ?thesis
  proof (cases rule: wait_for_api_ways)
    case (not_ready rs)
    with main_not_ready [OF True w] have "fst (main E) = Inl (SystemExit 1)"
      by simp
    then show ?thesis
      using True w not_ready(1) by (simp add: run_def)
  next
    case (raised rs e)
    with main_not_ready [OF True w] have "fst (main E) = Inl (Raised e)"
      by simp
    then show ?thesis
      by (simp add: run_def exit_code_Raised)
  next
    case (interrupted rs p)
    with main_not_ready [OF True w] have "fst (main E) = Inl (Raised KeyboardInterrupt)"
      by simp
    then show ?thesis
      by (simp add: run_def)
  next
    case (ready rs b)
    from main_ready_result [OF True] w ready(1)
    consider "fst (main E) = Inr ()" | e where "fst (main E) = Inl (Raised e)"
      by auto
    then show ?thesis
    proof cases
      case 1
      then show ?thesis
        using True w ready(1) by (simp add: run_def)
    next
      case 2
      then show ?thesis
        by (simp add: run_def exit_code_Raised)
    qed
  qed
qed

theorem exit_code_of_run_witness:
  "run (api fixture_three answer_create_fails) =
     (0, [Call GET ZonesUrl None (Inr (Some 200, Some ''[]'')),
          LoadFixture,
          Call POST ZonesUrl (Some (JObj (butlast zone_native)))
            (Inr (Some 500, Some ''Internal Server Error'')),
          Call POST ZonesUrl
            (Some (JObj [(''name'', JStr ''s.test.''), (''kind'', JStr ''Slave''),
                         (''masters'', JArr [JStr ''192.0.2.1'']), (''nameservers'', JArr [])]))
            (Inr (Some 500, Some ''Internal Server Error'')),
          Call POST ZonesUrl (Some (JObj (butlast zone_master)))
            (Inr (Some 500, Some ''Internal Server Error'')),
          Report 0 3,
          Call GET ZonesUrl None (Inr (Some 200, Some ''[]''))]) \<and>
   run ((api fixture_three answer_ok)\<lparr>file_exists := False\<rparr>) = (1, []) \<and>
   run (api fixture_three answer_down) =
     (1, polls (replicate 30 (None, Some ''Connection refused'')))"
proof -
  let ?E = "api fixture_three answer_create_fails"
  have m: "main ?E =
     (Inr (), [Call GET ZonesUrl None (Inr (Some 200, Some ''[]'')),
          LoadFixture,
          Call POST ZonesUrl (Some (JObj (butlast zone_native)))
            (Inr (Some 500, Some ''Internal Server Error'')),
          Call POST ZonesUrl
            (Some (JObj [(''name'', JStr ''s.test.''), (''kind'', JStr ''Slave''),
                         (''masters'', JArr [JStr ''192.0.2.1'']), (''nameservers'', JArr [])]))
            (Inr (Some 500, Some ''Internal Server Error'')),
          Call POST ZonesUrl (Some (JObj (butlast zone_master)))
            (Inr (Some 500, Some ''Internal Server Error'')),
          Report 0 3,
          Call GET ZonesUrl None (Inr (Some 200, Some ''[]''))])"
    by (simp add: main_eval example_defs fixture_three_def answer_create_fails_def)
  have missing: "main ((api fixture_three answer_ok)\<lparr>file_exists := False\<rparr>) =
      (Inl (SystemExit 1), [])"
    by (simp add: main_def)
  have down: "main (api fixture_three answer_down) =
      (Inl (SystemExit 1), polls (replicate 30 (None, Some ''Connection refused'')))"
    using wait_loop_down [of fixture_three "[]" 30]
    by (simp add: main_def wait_for_api_def) (simp add: api_def)
  from exit_code_of_run [of ?E]
    exit_code_of_run [of "(api fixture_three answer_ok)\<lparr>file_exists := False\<rparr>"]
    exit_code_of_run [of "api fixture_three answer_down"]
  show ?thesis
    using m missing down by (simp add: run_def)
qed

text \<open>
  C1. Take a run in which the fixture file exists, the API gets ready and the fixture is a
  dict whose zones are a list of N zone descriptors. If every POST of the run was answered
  with status 201 and every PATCH with 200 or 204, then the run reports N successes out of
  N zones, and reports nothing else.
\<close>

theorem all_created_all_counted:
  assumes "file_exists E"
    and "fst (wait_for_api E [] 30) = Inr True"
    and "load_file E = Inr (JObj fixture)"
    and "map_of fixture ''zones'' = Some (JArr zones)"
    and "\<forall>z\<in>set zones. zone_descriptor z"
    and "\<forall>u d p. Call POST u d p \<in> set (snd (main E)) \<longrightarrow> (\<exists>b. p = Inr (Some 201, b))"
    and "\<forall>u d p. Call PATCH u d p \<in> set (snd (main E)) \<longrightarrow>
        (\<exists>b. p = Inr (Some 200, b)) \<or> (\<exists>b. p = Inr (Some 204, b))"
  shows "Report (length zones) (length zones) \<in> set (snd (main E)) \<and>
    (\<forall>s n. Report s n \<in> set (snd (main E)) \<longrightarrow> s = length zones \<and> n = length zones)"
proof -
  obtain tr1 where w: "wait_for_api E [] 30 = (Inr True, tr1)"
    using assms(2) by (cases "wait_for_api E [] 30") simp
  from w obtain rs b where tr1: "tr1 = polls rs @ [Call GET ZonesUrl None (Inr (Some 200, b))]"
    by (cases rule: wait_for_api_ways) auto
  let ?tr = "tr1 @ [LoadFixture]"
  obtain rc tr2 where cz: "create_zones E ?tr zones 0 = (rc, tr2)"
    by (cases "create_zones E ?tr zones 0")
  from create_zones_extends [of E ?tr zones 0] obtain evs where
    tr2: "tr2 = ?tr @ evs" and evs: "\<forall>ev\<in>set evs. is_call POST ev \<or> is_call PATCH ev"
    unfolding cz by auto
  have m: "main E = (case rc of Inl a \<Rightarrow> (Inl a, tr2)
      | Inr success_count \<Rightarrow> zone_summary E (tr2 @ [Report success_count (length zones)]))"
    using assms(1,3,4) w cz by (simp add: main_def dict_get_def split: sum.splits)
  have sub: "set tr2 \<subseteq> set (snd (main E))"
  proof (cases rc)
    case (Inl a)
    with m show ?thesis by simp
  next
    case (Inr c)
    with m zone_summary_extends [of E "tr2 @ [Report c (length zones)]"] show ?thesis
      by auto
  qed
  have rc: "rc = Inr (0 + length zones)"
  proof (rule create_zones_all_ok [OF cz assms(5)])
    show "\<forall>u d p. Call POST u d p \<in> set tr2 \<longrightarrow> (\<exists>b. p = Inr (Some 201, b))"
      using assms(6) sub by blast
    show "\<forall>u d p. Call PATCH u d p \<in> set tr2 \<longrightarrow>
        (\<exists>b. p = Inr (Some 200, b)) \<or> (\<exists>b. p = Inr (Some 204, b))"
      using assms(7) sub by blast
  qed
  let ?report = "Report (length zones) (length zones)"
  from zone_summary_extends [of E "tr2 @ [?report]"] obtain evs' where
    s: "snd (zone_summary E (tr2 @ [?report])) = (tr2 @ [?report]) @ evs'"
    and evs': "\<forall>ev\<in>set evs'. is_call GET ev \<or> (\<exists>name kind. ev = Listed name kind)"
    by blast
  have trace: "snd (main E) = polls rs @ [Call GET ZonesUrl None (Inr (Some 200, b)), LoadFixture]
      @ evs @ [?report] @ evs'"
    using m rc s tr2 tr1 by simp
  have no1: "Report s n \<notin> set (polls rs)" for s n
    by (auto simp: polls_def)
  have no2: "Report s n \<notin> set evs" for s n
    using evs by auto
  have no3: "Report s n \<notin> set evs'" for s n
    using evs' by auto
  show ?thesis
    unfolding trace using no1 no2 no3 by auto
qed

theorem all_created_all_counted_witness:
  "main (api fixture_three answer_ok) =
     (Inr (), [Call GET ZonesUrl None (Inr (Some 200, Some ''[]'')),
          LoadFixture,
          Call POST ZonesUrl (Some (JObj (butlast zone_native))) (Inr (Some 201, Some ''{}'')),
          Call PATCH (ZoneUrl (JStr ''a.test.'')) (Some (JObj [(''rrsets'', JArr [rrset_www])]))
            (Inr (Some 204, None)),
          Call POST ZonesUrl
            (Some (JObj [(''name'', JStr ''s.test.''), (''kind'', JStr ''Slave''),
                         (''masters'', JArr [JStr ''192.0.2.1'']), (''nameservers'', JArr [])]))
            (Inr (Some 201, Some ''{}'')),
          Call POST ZonesUrl (Some (JObj (butlast zone_master))) (Inr (Some 201, Some ''{}'')),
          Report 3 3,
          Call GET ZonesUrl None (Inr (Some 200, Some ''[]''))]) \<and>
   length [JObj zone_native, JObj zone_slave, JObj zone_master] = 3 \<and>
   Report 3 3 \<in> set (snd (main (api fixture_three answer_ok)))"
proof -
  let ?E = "api fixture_three answer_ok"
  let ?zones = "[JObj zone_native, JObj zone_slave, JObj zone_master]"
  have m: "main ?E =
     (Inr (), [Call GET ZonesUrl None (Inr (Some 200, Some ''[]'')),
          LoadFixture,
          Call POST ZonesUrl (Some (JObj (butlast zone_native))) (Inr (Some 201, Some ''{}'')),
          Call PATCH (ZoneUrl (JStr ''a.test.'')) (Some (JObj [(''rrsets'', JArr [rrset_www])]))
            (Inr (Some 204, None)),
          Call POST ZonesUrl
            (Some (JObj [(''name'', JStr ''s.test.''), (''kind'', JStr ''Slave''),
                         (''masters'', JArr [JStr ''192.0.2.1'']), (''nameservers'', JArr [])]))
            (Inr (Some 201, Some ''{}'')),
          Call POST ZonesUrl (Some (JObj (butlast zone_master))) (Inr (Some 201, Some ''{}'')),
          Report 3 3,
          Call GET ZonesUrl None (Inr (Some 200, Some ''[]''))])"
    by (simp add: main_eval example_defs fixture_three_def)
  have h1: "file_exists ?E"
    by (simp add: api_def)
  have h2: "fst (wait_for_api ?E [] 30) = Inr True"
    by (simp add: main_eval example_defs)
  have h3: "load_file ?E = Inr (JObj [(''zones'', JArr ?zones)])"
    by (simp add: api_def fixture_three_def)
  have h4: "map_of [(''zones'', JArr ?zones)] ''zones'' = Some (JArr ?zones)"
    by simp
  have h5: "\<forall>z\<in>set ?zones. zone_descriptor z"
    by (simp add: example_defs)
  have h6: "\<forall>u d p. Call POST u d p \<in> set (snd (main ?E)) \<longrightarrow> (\<exists>b. p = Inr (Some 201, b))"
    unfolding m by auto
  have h7: "\<forall>u d p. Call PATCH u d p \<in> set (snd (main ?E)) \<longrightarrow>
        (\<exists>b. p = Inr (Some 200, b)) \<or> (\<exists>b. p = Inr (Some 204, b))"
    unfolding m by auto
  from all_created_all_counted [OF h1 h2 h3 h4 h5 h6 h7] m show ?thesis
    by simp
qed

text \<open>
  C10. A zone descriptor without a name or without a kind makes create_zone raise
  KeyError before any request. In the loop of main nothing after such a zone is looked at:
  the loop raises, and what it does is the same whatever zones follow. A run on a fixture
  that holds such a zone ends with exit code 1, reports nothing, and makes no more POSTs
  than there are zones before the malformed one.
\<close>

theorem malformed_zone_aborts_run:
  assumes "load_file E = Inr (JObj fixture)"
    and "map_of fixture ''zones'' = Some (JArr (before @ JObj items # after))"
    and "map_of items ''name'' = None \<or> map_of items ''kind'' = None"
  shows "create_zone E tr (JObj items) =
      (Inl (Raised (KeyError (if map_of items ''name'' = None then ''name'' else ''kind''))), tr) \<and>
    (\<exists>e. fst (create_zones E tr (before @ JObj items # after) c) = Inl (Raised e)) \<and>
    create_zones E tr (before @ JObj items # after) c =
      create_zones E tr (before @ [JObj items]) c \<and>
    fst (run E) = 1 \<and>
    length (filter (is_call POST) (snd (run E))) \<le> length before \<and>
    (\<forall>s n. Report s n \<notin> set (snd (run E)))"
proof -
  let ?zs = "before @ JObj items # after"
  note stop = create_zones_malformed [OF assms(3)]
  have one: "create_zone E tr (JObj items) =
      (Inl (Raised (KeyError (if map_of items ''name'' = None then ''name'' else ''kind''))), tr)"
    by (rule create_zone_KeyError [OF assms(3)])
  have raises: "\<exists>e. fst (create_zones E t ?zs k) = Inl (Raised e)" for t k
  proof -
    obtain rb tb where b: "create_zones E t before k = (rb, tb)"
      by (cases "create_zones E t before k")
    show ?thesis
    proof (cases rb)
      case (Inl a)
      with b create_zones_Raised [of E t before k a tb] show ?thesis
        by (auto simp: stop)
    next
      case (Inr c')
      with b show ?thesis by (simp add: stop)
    qed
  qed
  have same: "create_zones E tr ?zs c = create_zones E tr (before @ [JObj items]) c"
    using stop [of E tr before after c] stop [of E tr before "[]" c] by simp
  have run: "fst (run E) = 1 \<and> length (filter (is_call POST) (snd (run E))) \<le> length before \<and>
    (\<forall>s n. Report s n \<notin> set (snd (run E)))"
  proof (cases "file_exists E")
    case False
    then show ?thesis by (simp add: run_def main_missing)
  next
    case True
    obtain r tr1 where w: "wait_for_api E [] 30 = (r, tr1)"
      by (cases "wait_for_api E [] 30")
    have polls: "filter (is_call POST) (polls rs) = [] \<and> (\<forall>s n. Report s n \<notin> set (polls rs))" for rs
      by (induction rs) (auto simp: polls_def)
    from w show ?thesis
    proof (cases rule: wait_for_api_ways)
      case (not_ready rs)
      with main_not_ready [OF True w] have "main E = (Inl (SystemExit 1), polls rs)"
        by simp
      then show ?thesis using polls [of rs] by (simp add: run_def)
    next
      case (raised rs e)
      with main_not_ready [OF True w]
      have "main E = (Inl (Raised e), polls rs @ [Call GET ZonesUrl None (Inl (Raised e))])"
        by simp
      then show ?thesis using polls [of rs] by (simp add: run_def exit_code_Raised)
    next
      case (interrupted rs p)
      with main_not_ready [OF True w]
      have "main E = (Inl (Raised KeyboardInterrupt),
          polls rs @ [Call GET ZonesUrl None (Inr p), Interrupted])"
        by simp
      then show ?thesis using polls [of rs] by (simp add: run_def)
    next
      case (ready rs b)
      let ?tr = "tr1 @ [LoadFixture]"
      obtain rb tb where bz: "create_zones E ?tr before 0 = (rb, tb)"
        by (cases "create_zones E ?tr before 0")
      from create_zones_extends [of E ?tr before 0] obtain evs where
        tb: "tb = ?tr @ evs" and evs: "\<forall>ev\<in>set evs. is_call POST ev \<or> is_call PATCH ev"
        and posts: "length (filter (is_call POST) evs) \<le> length before"
        unfolding bz by auto
      have "\<exists>e. create_zones E ?tr ?zs 0 = (Inl (Raised e), tb)"
      proof (cases rb)
        case (Inl a)
        with bz create_zones_Raised [of E ?tr before 0 a tb] show ?thesis
          by (auto simp: stop)
      next
        case (Inr c')
        with bz show ?thesis by (simp add: stop)
      qed
      then obtain e where "create_zones E ?tr ?zs 0 = (Inl (Raised e), tb)" ..
      then have "main E = (Inl (Raised e), tb)"
        using True w ready(1) assms(1,2) by (simp add: main_def dict_get_def)
      moreover have "\<forall>s n. Report s n \<notin> set evs"
        using evs by auto
      ultimately show ?thesis
        unfolding tb ready(3) using polls [of rs] posts
        by (simp add: run_def exit_code_Raised)
    qed
  qed
  from one raises [of tr c] same run show ?thesis
    by blast
qed

theorem malformed_zone_aborts_run_witness:
  "map_of zone_nameless ''name'' = None \<and>
   run (api fixture_malformed answer_ok) =
     (1, [Call GET ZonesUrl None (Inr (Some 200, Some ''[]'')),
          LoadFixture,
          Call POST ZonesUrl (Some (JObj (butlast zone_master))) (Inr (Some 201, Some ''{}''))]) \<and>
   fst (main (api fixture_malformed answer_ok)) = Inl (Raised (KeyError ''name''))"
proof -
  let ?E = "api fixture_malformed answer_ok"
  have h1: "load_file ?E =
      Inr (JObj [(''zones'', JArr [JObj zone_master, JObj zone_nameless, JObj zone_native])])"
    by (simp add: api_def fixture_malformed_def)
  have h2: "map_of [(''zones'', JArr [JObj zone_master, JObj zone_nameless, JObj zone_native])]
      ''zones'' = Some (JArr ([JObj zone_master] @ JObj zone_nameless # [JObj zone_native]))"
    by simp
  have h3: "map_of zone_nameless ''name'' = None \<or> map_of zone_nameless ''kind'' = None"
    by (simp add: zone_nameless_def)
  have m: "main ?E =
     (Inl (Raised (KeyError ''name'')),
      [Call GET ZonesUrl None (Inr (Some 200, Some ''[]'')),
       LoadFixture,
       Call POST ZonesUrl (Some (JObj (butlast zone_master))) (Inr (Some 201, Some ''{}''))])"
    by (simp add: main_eval example_defs fixture_malformed_def)
  from malformed_zone_aborts_run [OF h1 h2 h3, of "[]" 0] m show ?thesis
    by (simp add: run_def zone_nameless_def)
qed

text \<open>
  C9. make_request does not return for every HTTP outcome. When the server answers a POST
  with an HTTP error whose body cannot be decoded, the exception raised inside the
  handler of HTTPError leaves make_request, create_zone and main: the run below ends with
  exit code 1 on the first zone, with no report and with the two other zones never tried,
  where a counted failure was meant.
\<close>

theorem undecodable_error_body_escapes:
  "make_request (api fixture_three answer_garbled) [] ZonesUrl POST (Some (JObj zone_master)) =
     (Inl (Raised (UnicodeDecodeError ''invalid start byte'')),
      [Call POST ZonesUrl (Some (JObj zone_master))
         (Inl (Raised (UnicodeDecodeError ''invalid start byte'')))]) \<and>
   run (api fixture_three answer_garbled) =
     (1, [Call GET ZonesUrl None (Inr (Some 200, Some ''[]'')),
          LoadFixture,
          Call POST ZonesUrl (Some (JObj (butlast zone_native)))
            (Inl (Raised (UnicodeDecodeError ''invalid start byte'')))])"
  by (simp add: run_def main_eval example_defs fixture_three_def answer_garbled_def)

end
